theory Spec2Isabelle
  imports Main
begin

section \<open>The element tree\<close>

text \<open>
  Modelled from the spec: the element tree of the XML library (\<open>tinyxml2/tinyxml2.h\<close>,
  included by \<open>main.cpp\<close> but not part of the sources at hand). An element has a tag
  name, its attributes as name/value pairs in document order, and its child elements in
  document order.
\<close>

datatype element =
  Element (Name: string) (attributes: "(string \<times> string) list") (children: "element list")

text \<open>
  A \<open>const XMLElement *\<close> is a position in a sibling chain: the element pointed to,
  followed by its next sibling elements in order. The empty chain is \<open>nullptr\<close>.
  For a pointer \<open>e # sibs\<close>, \<open>FirstChildElement()\<close> is \<open>children e\<close> and
  \<open>NextSiblingElement()\<close> is \<open>sibs\<close>.
\<close>

type_synonym elem_ptr = "element list"

text \<open>
  Modelled from the spec: \<open>XMLElement::Attribute(name)\<close>, the value of the first
  attribute with that name, or a null pointer (\<open>None\<close>) when the element has none.
\<close>

definition Attribute :: "element \<Rightarrow> string \<Rightarrow> string option" where
  "Attribute element name = map_of (attributes element) name"

text \<open>Dereferencing a null element pointer is the one way the traversals can fault.\<close>

datatype fault = NullDereference

section \<open>Output\<close>

abbreviation endl :: string where
  "endl \<equiv> [CHR 0x0A]"

abbreviation quote :: string where
  "quote \<equiv> [CHR 0x27]"

text \<open>
  \<open>dprint\<close> writes its (already formatted) message to standard output when the global
  \<open>debug\<close> flag is set, and nothing otherwise. The flag is passed explicitly.
\<close>

definition dprint :: "bool \<Rightarrow> string \<Rightarrow> string" where
  "dprint debug message = (if \<not> debug then [] else message)"

text \<open>
  The attribute loop of \<open>print_node_attributes\<close> (lines 88 to 92): the state is the
  \<open>hasAttributes\<close> flag and the characters written so far.
\<close>

fun attribute_loop :: "(string \<times> string) list \<Rightarrow> bool \<times> string \<Rightarrow> bool \<times> string" where
  "attribute_loop [] state = state"
| "attribute_loop (attr # rest) (hasAttributes, out) =
     attribute_loop rest (True, out @ ''  '' @ fst attr @ '': '' @ snd attr @ endl)"

text \<open>
  \<open>print_node_attributes\<close> returns the characters it writes to standard output.
  \<open>only_print\<close> is a \<open>const char *\<close>: \<open>None\<close> is the null pointer.
\<close>

definition print_node_attributes :: "bool \<Rightarrow> element \<Rightarrow> string option \<Rightarrow> string" where
  "print_node_attributes debug element only_print =
     dprint debug (''Processing node: '' @ Name element @ endl) @
     (if only_print \<noteq> None \<and> length (the only_print) > 0 then
        (case Attribute element (the only_print) of
           Some attr \<Rightarrow> the only_print @ '': '' @ attr @ endl
         | None \<Rightarrow> ''Attribute '' @ quote @ the only_print @ quote @ '' not found on node ''
                     @ Name element @ endl)
      else
        (case attribute_loop (attributes element) (False, ''Node: '' @ Name element @ endl) of
           (hasAttributes, out) \<Rightarrow>
             out @
             (if \<not> hasAttributes
              then ''  No attributes found for node: '' @ Name element @ endl else []) @
             endl))"

section \<open>The secondary filter\<close>

definition node_matches_additional_filter :: "element \<Rightarrow> string \<Rightarrow> string \<Rightarrow> bool" where
  "node_matches_additional_filter element filter_attribute filter_value =
     (if filter_attribute \<noteq> [] \<and> filter_value \<noteq> [] then
        (case Attribute element filter_attribute of
           None \<Rightarrow> False
         | Some attr_value \<Rightarrow> filter_value = attr_value)
      else True)"

section \<open>The traversals\<close>

text \<open>
  A traversal is observed through the events it produces, in order: \<open>Test e\<close> when it
  evaluates its match condition on the element \<open>e\<close>, and \<open>Print e s\<close> when it calls
  \<open>print_node_attributes\<close> on \<open>e\<close>, which writes \<open>s\<close> to standard output.
\<close>

datatype event = Test element | Print element string

fun tested :: "event list \<Rightarrow> element list" where
  "tested [] = []"
| "tested (Test e # evs) = e # tested evs"
| "tested (Print e s # evs) = tested evs"

fun printed :: "event list \<Rightarrow> element list" where
  "printed [] = []"
| "printed (Test e # evs) = printed evs"
| "printed (Print e s # evs) = e # printed evs"

fun written :: "event list \<Rightarrow> string" where
  "written [] = []"
| "written (Test e # evs) = written evs"
| "written (Print e s # evs) = s @ written evs"

text \<open>
  Sequencing of two steps that may fault: the first fault ends the run. A faulting run
  keeps no events; the only fault of the traversals, on a null starting pointer, comes
  before any event.
\<close>

fun and_then :: "fault + event list \<Rightarrow> fault + event list \<Rightarrow> fault + event list" where
  "and_then (Inl f) r = Inl f"
| "and_then (Inr evs) (Inl f) = Inl f"
| "and_then (Inr evs) (Inr evs') = Inr (evs @ evs')"

text \<open>
  The recursion of the three named traversals ends because a call on an element only
  calls its child loop, and the child loop only calls elements of its chain.
\<close>

type_synonym walk_args = "bool \<times> elem_ptr \<times> string \<times> string option \<times> string \<times> string"

fun walk_measure :: "walk_args + walk_args \<Rightarrow> nat" where
  "walk_measure (Inl (debug, [], rest)) = 0"
| "walk_measure (Inl (debug, element # sibs, rest)) = 2 * size element"
| "walk_measure (Inr (debug, ptr, rest)) = 2 * size_list size ptr + 1"

text \<open>
  \<open>find_node_by_resource_id\<close> reads the attribute of the element it is given without a
  null check (line 117). The second function of each pair is the loop over the children
  (lines 126 to 130), whose state is the pointer \<open>child\<close>.
\<close>

function find_node_by_resource_id ::
    "bool \<Rightarrow> elem_ptr \<Rightarrow> string \<Rightarrow> string option \<Rightarrow> string \<Rightarrow> string \<Rightarrow> fault + event list"
  and resource_id_children ::
    "bool \<Rightarrow> elem_ptr \<Rightarrow> string \<Rightarrow> string option \<Rightarrow> string \<Rightarrow> string \<Rightarrow> fault + event list"
where
  "find_node_by_resource_id debug [] resource_id only_print filter_attribute filter_value =
     Inl NullDereference"
| "find_node_by_resource_id debug (element # sibs) resource_id only_print
       filter_attribute filter_value =
     and_then
       (Inr (Test element #
          (if (case Attribute element ''resource-id'' of
                 None \<Rightarrow> False | Some res_id_attr \<Rightarrow> resource_id = res_id_attr)
           then (if node_matches_additional_filter element filter_attribute filter_value
                 then [Print element (print_node_attributes debug element only_print)]
                 else [])
           else [])))
       (resource_id_children debug (children element) resource_id only_print
          filter_attribute filter_value)"
| "resource_id_children debug [] resource_id only_print filter_attribute filter_value =
     Inr []"
| "resource_id_children debug (child # sibs) resource_id only_print
       filter_attribute filter_value =
     and_then
       (find_node_by_resource_id debug (child # sibs) resource_id only_print
          filter_attribute filter_value)
       (resource_id_children debug sibs resource_id only_print filter_attribute filter_value)"
  by pat_completeness auto
termination
proof (relation "measure walk_measure")
  fix element :: element
  have "Suc (2 * size_list size (children element)) < 2 * size element"
    by (cases element) simp
  then show "\<And>debug sibs target only_print fa fv.
      (Inr (debug, children element, target, only_print, fa, fv),
       Inl (debug, element # sibs, target, only_print, fa, fv)) \<in> measure walk_measure"
    by simp
qed simp_all

text \<open>\<open>find_node_by_class\<close> (lines 133 to 150) has the same shape, on the attribute \<open>class\<close>.\<close>

function find_node_by_class ::
    "bool \<Rightarrow> elem_ptr \<Rightarrow> string \<Rightarrow> string option \<Rightarrow> string \<Rightarrow> string \<Rightarrow> fault + event list"
  and class_children ::
    "bool \<Rightarrow> elem_ptr \<Rightarrow> string \<Rightarrow> string option \<Rightarrow> string \<Rightarrow> string \<Rightarrow> fault + event list"
where
  "find_node_by_class debug [] class_name only_print filter_attribute filter_value =
     Inl NullDereference"
| "find_node_by_class debug (element # sibs) class_name only_print
       filter_attribute filter_value =
     and_then
       (Inr (Test element #
          (if (case Attribute element ''class'' of
                 None \<Rightarrow> False | Some class_attr \<Rightarrow> class_name = class_attr)
           then (if node_matches_additional_filter element filter_attribute filter_value
                 then [Print element (print_node_attributes debug element only_print)]
                 else [])
           else [])))
       (class_children debug (children element) class_name only_print
          filter_attribute filter_value)"
| "class_children debug [] class_name only_print filter_attribute filter_value =
     Inr []"
| "class_children debug (child # sibs) class_name only_print
       filter_attribute filter_value =
     and_then
       (find_node_by_class debug (child # sibs) class_name only_print
          filter_attribute filter_value)
       (class_children debug sibs class_name only_print filter_attribute filter_value)"
  by pat_completeness auto
termination
proof (relation "measure walk_measure")
  fix element :: element
  have "Suc (2 * size_list size (children element)) < 2 * size element"
    by (cases element) simp
  then show "\<And>debug sibs target only_print fa fv.
      (Inr (debug, children element, target, only_print, fa, fv),
       Inl (debug, element # sibs, target, only_print, fa, fv)) \<in> measure walk_measure"
    by simp
qed simp_all

text \<open>\<open>find_node_by_text\<close> (lines 152 to 169) has the same shape, on the attribute \<open>text\<close>.\<close>

function find_node_by_text ::
    "bool \<Rightarrow> elem_ptr \<Rightarrow> string \<Rightarrow> string option \<Rightarrow> string \<Rightarrow> string \<Rightarrow> fault + event list"
  and text_children ::
    "bool \<Rightarrow> elem_ptr \<Rightarrow> string \<Rightarrow> string option \<Rightarrow> string \<Rightarrow> string \<Rightarrow> fault + event list"
where
  "find_node_by_text debug [] text_value only_print filter_attribute filter_value =
     Inl NullDereference"
| "find_node_by_text debug (element # sibs) text_value only_print
       filter_attribute filter_value =
     and_then
       (Inr (Test element #
          (if (case Attribute element ''text'' of
                 None \<Rightarrow> False | Some text_attr \<Rightarrow> text_value = text_attr)
           then (if node_matches_additional_filter element filter_attribute filter_value
                 then [Print element (print_node_attributes debug element only_print)]
                 else [])
           else [])))
       (text_children debug (children element) text_value only_print
          filter_attribute filter_value)"
| "text_children debug [] text_value only_print filter_attribute filter_value =
     Inr []"
| "text_children debug (child # sibs) text_value only_print
       filter_attribute filter_value =
     and_then
       (find_node_by_text debug (child # sibs) text_value only_print
          filter_attribute filter_value)
       (text_children debug sibs text_value only_print filter_attribute filter_value)"
  by pat_completeness auto
termination
proof (relation "measure walk_measure")
  fix element :: element
  have "Suc (2 * size_list size (children element)) < 2 * size element"
    by (cases element) simp
  then show "\<And>debug sibs target only_print fa fv.
      (Inr (debug, children element, target, only_print, fa, fv),
       Inl (debug, element # sibs, target, only_print, fa, fv)) \<in> measure walk_measure"
    by simp
qed simp_all

text \<open>
  \<open>find_node_by_filter\<close> (lines 171 to 184) is a loop whose only state is the pointer
  \<open>child\<close>, starting at the element given: it stops at the null pointer, and otherwise
  tests \<open>child\<close>, calls itself on the first child of \<open>child\<close>, and goes on with the
  next sibling. It never dereferences a null pointer.
\<close>

function find_node_by_filter :: "bool \<Rightarrow> elem_ptr \<Rightarrow> string \<Rightarrow> string \<Rightarrow> string option \<Rightarrow> event list" where
  "find_node_by_filter debug [] filter_attribute filter_value only_print = []"
| "find_node_by_filter debug (child # sibs) filter_attribute filter_value only_print =
     (Test child #
        (if node_matches_additional_filter child filter_attribute filter_value
         then [Print child (print_node_attributes debug child only_print)]
         else [])) @
     find_node_by_filter debug (children child) filter_attribute filter_value only_print @
     find_node_by_filter debug sibs filter_attribute filter_value only_print"
  by pat_completeness auto
termination
proof (relation "measure (\<lambda>(debug, ptr, rest). size_list size ptr)")
  fix child :: element
  have "size_list size (children child) < size child"
    by (cases child) simp
  then show "\<And>debug sibs fa fv only_print.
      ((debug, children child, fa, fv, only_print), (debug, child # sibs, fa, fv, only_print))
        \<in> measure (\<lambda>(debug, ptr, rest). size_list size ptr)"
    by simp
qed simp_all

section \<open>The program\<close>

text \<open>The text written by \<open>print_help\<close>.\<close>

definition print_help :: string where
  "print_help =
     ''Usage: uidump-parser --file <xml_file> [OPTIONS]'' @ endl @
     ''Options:'' @ endl @
     ''  --file, -f <xml_file>            : Path to the XML file to parse (required)'' @ endl @
     ''  --resource-id, -r <id>           : Search for a node with the given resource-id'' @ endl @
     ''  --class, -c <class_name>         : Search for a node with the given class name'' @ endl @
     ''  --text, -t <text_value>          : Search for a node with the given text value'' @ endl @
     ''  --filter-attribute, -F <attr=val>: Filter by any attribute dynamically (e.g., package, content-desc)'' @ endl @
     ''  --print-only, -p <attribute>     : Print only the specified attribute for matched nodes'' @ endl @
     ''  --bounds, -b                     : Print bounds for matched nodes'' @ endl @
     ''  --debug, -d                      : Enable debug mode for verbose output'' @ endl @
     ''  --help, -h                       : Show this help message and exit'' @ endl @
     endl @
     ''Examples:'' @ endl @
     ''  ./uidump-parser --file dump.xml --resource-id com.example --print-only bounds --debug'' @ endl @
     ''  ./uidump-parser --file dump.xml --resource-id com.example --filter-attribute text=Grindr --print-only bounds'' @ endl @
     ''  ./uidump-parser --file dump.xml --class android.widget.TextView --filter-attribute enabled=true'' @ endl @
     ''  ./uidump-parser --file dump.xml --text Instagram --filter-attribute package=com.example --bounds'' @ endl"

text \<open>
  The local variables of \<open>main\<close> that the option loop sets, with the global
  \<open>debug\<close> flag.
\<close>

record config =
  xml_file :: string
  filter_attribute :: string
  filter_value :: string
  only_print :: string
  resource_id :: string
  class_name :: string
  text_value :: string
  debug :: bool

definition initial_config :: config where
  "initial_config =
     \<lparr>xml_file = [], filter_attribute = [], filter_value = [], only_print = [],
      resource_id = [], class_name = [], text_value = [], debug = False\<rparr>"

text \<open>
  How the process ends, and what it has written by then. \<open>trace\<close> keeps the events of
  the traversal that ran.
\<close>

datatype exit = Exited nat | Crashed fault

record outcome =
  status :: exit
  cout :: string
  cerr :: string
  trace :: "event list"

text \<open>
  Modelled from the spec: \<open>EXIT_FAILURE\<close>, a macro of the C library that the sources
  at hand do not define. The spec gives exit code 1 for the empty file path, its value
  on the systems that provide \<open>getopt.h\<close>.
\<close>

definition EXIT_FAILURE :: nat where
  "EXIT_FAILURE = 1"

text \<open>\<open>std::string::find\<close> of a character: its first position, or \<open>npos\<close> (\<open>None\<close>).\<close>

fun string_find :: "string \<Rightarrow> char \<Rightarrow> nat option" where
  "string_find [] c = None"
| "string_find (x # xs) c = (if x = c then Some 0 else map_option Suc (string_find xs c))"

definition usage :: "string \<Rightarrow> string" where
  "usage argv0 =
     ''Usage: '' @ argv0 @
     '' --file <xml_file> [--resource-id <id>] [--class <class_name>] '' @
     ''[--text <text_value>] [--filter-attribute <attr=value>] [--print-only <attribute>] '' @
     ''[--debug] [--help]'' @ endl"

text \<open>
  The option loop (lines 203 to 245) over the results of \<open>getopt_long\<close>, each the
  character returned with the value of \<open>optarg\<close>; \<open>getopt_long\<close> returns \<open>?\<close> for
  an option it does not know or whose argument is missing. The loop either leaves
  \<open>main\<close> (\<open>Inl\<close>) or ends with the variables set (\<open>Inr\<close>). The message that
  \<open>getopt_long\<close> itself writes for such an option is not part of \<open>cerr\<close>.
\<close>

fun option_loop :: "string \<Rightarrow> (char \<times> string) list \<Rightarrow> config \<Rightarrow> outcome + config" where
  "option_loop argv0 [] c = Inr c"
| "option_loop argv0 ((opt, optarg) # rest) c =
     (if opt = CHR ''f'' then option_loop argv0 rest (c\<lparr>xml_file := optarg\<rparr>)
      else if opt = CHR ''r'' then option_loop argv0 rest (c\<lparr>resource_id := optarg\<rparr>)
      else if opt = CHR ''c'' then option_loop argv0 rest (c\<lparr>class_name := optarg\<rparr>)
      else if opt = CHR ''t'' then option_loop argv0 rest (c\<lparr>text_value := optarg\<rparr>)
      else if opt = CHR ''F'' then
        (case string_find optarg (CHR ''='') of
           Some equal_pos \<Rightarrow>
             option_loop argv0 rest
               (c\<lparr>filter_attribute := take equal_pos optarg,
                  filter_value := drop (equal_pos + 1) optarg\<rparr>)
         | None \<Rightarrow> option_loop argv0 rest c)
      else if opt = CHR ''p'' then option_loop argv0 rest (c\<lparr>only_print := optarg\<rparr>)
      else if opt = CHR ''d'' then option_loop argv0 rest (c\<lparr>debug := True\<rparr>)
      else if opt = CHR ''h'' then
        Inl \<lparr>status = Exited 0, cout = print_help, cerr = [], trace = []\<rparr>
      else
        Inl \<lparr>status = Exited EXIT_FAILURE, cout = [], cerr = usage argv0, trace = []\<rparr>)"

text \<open>
  The choice of the traversal (lines 264 to 279): the result of the traversal that runs,
  and what is written to the error stream.
\<close>

definition dispatch :: "config \<Rightarrow> elem_ptr \<Rightarrow> (fault + event list) \<times> string" where
  "dispatch c root_element =
     (if resource_id c \<noteq> [] then
        (find_node_by_resource_id (debug c) root_element (resource_id c)
           (Some (only_print c)) (filter_attribute c) (filter_value c), [])
      else if class_name c \<noteq> [] then
        (find_node_by_class (debug c) root_element (class_name c)
           (Some (only_print c)) (filter_attribute c) (filter_value c), [])
      else if text_value c \<noteq> [] then
        (find_node_by_text (debug c) root_element (text_value c)
           (Some (only_print c)) (filter_attribute c) (filter_value c), [])
      else if filter_attribute c \<noteq> [] \<and> filter_value c \<noteq> [] then
        (Inr (find_node_by_filter (debug c) root_element (filter_attribute c)
                (filter_value c) (Some (only_print c))), [])
      else
        (Inr [],
         ''No search criteria specified. Use --resource-id, '' @
         ''--class, --text, or --filter-attribute <attr=value>.'' @ endl))"

text \<open>
  \<open>main\<close>, given the name of the program, the results of \<open>getopt_long\<close> and the XML
  library's \<open>LoadFile\<close>: \<open>None\<close> when it does not return \<open>XML_SUCCESS\<close>, and
  otherwise the document's \<open>RootElement()\<close>, which is null for a document without
  elements.
\<close>

definition main :: "string \<Rightarrow> (char \<times> string) list \<Rightarrow> (string \<Rightarrow> elem_ptr option) \<Rightarrow> outcome" where
  "main argv0 opts LoadFile =
     (case option_loop argv0 opts initial_config of
        Inl left \<Rightarrow> left
      | Inr c \<Rightarrow>
          if xml_file c = [] then
            \<lparr>status = Exited EXIT_FAILURE, cout = [],
             cerr = ''Error: XML file is required. Use --file <xml_file>'' @ endl, trace = []\<rparr>
          else
            (let opened = dprint (debug c) (''Opening XML file: '' @ xml_file c @ endl) in
             case LoadFile (xml_file c) of
               None \<Rightarrow>
                 \<lparr>status = Exited 1, cout = opened,
                  cerr = ''Error: could not parse file '' @ xml_file c @ endl, trace = []\<rparr>
             | Some root_element \<Rightarrow>
                 (let loaded = opened @ dprint (debug c) (''Successfully loaded XML file'' @ endl) in
                  case dispatch c root_element of
                    (Inl f, err) \<Rightarrow>
                      \<lparr>status = Crashed f, cout = loaded, cerr = err, trace = []\<rparr>
                  | (Inr evs, err) \<Rightarrow>
                      \<lparr>status = Exited 0, cout = loaded @ written evs, cerr = err,
                       trace = evs\<rparr>)))"

section \<open>The reference traversal\<close>

text \<open>
  The plain depth-first pre-order enumeration of a subtree, children in document order,
  and the events of a walk that tests every element of an enumeration once and prints
  the ones that satisfy a predicate.
\<close>

fun preorder :: "element \<Rightarrow> element list" where
  "preorder (Element name attrs cs) = Element name attrs cs # concat (map preorder cs)"

fun node_count :: "element \<Rightarrow> nat" where
  "node_count (Element name attrs cs) = Suc (sum_list (map node_count cs))"

definition visit :: "(element \<Rightarrow> bool) \<Rightarrow> (element \<Rightarrow> string) \<Rightarrow> element \<Rightarrow> event list" where
  "visit P pr e = Test e # (if P e then [Print e (pr e)] else [])"

definition full_walk :: "(element \<Rightarrow> bool) \<Rightarrow> (element \<Rightarrow> string) \<Rightarrow> element list \<Rightarrow> event list" where
  "full_walk P pr es = concat (map (visit P pr) es)"

text \<open>
  The matches of a plain pre-order walk of the subtree of one element under the filter's
  predicate.
\<close>

definition subtree_matches :: "element \<Rightarrow> string \<Rightarrow> string \<Rightarrow> element list" where
  "subtree_matches e fa fv = filter (\<lambda>x. node_matches_additional_filter x fa fv) (preorder e)"

text \<open>
  For the exit status: the option characters that only set a variable of \<open>main\<close>, and
  the file path that the options leave, the argument of the last \<open>f\<close>.
\<close>

definition sets_variable :: "char \<Rightarrow> bool" where
  "sets_variable opt = (opt \<in> set ''frctFpd'')"

definition file_path :: "(char \<times> string) list \<Rightarrow> string" where
  "file_path opts = foldl (\<lambda>path (opt, optarg). if opt = CHR ''f'' then optarg else path) [] opts"

section \<open>Sample documents\<close>

definition node_a :: element where
  "node_a = Element ''node'' [(''resource-id'', ''a''), (''text'', ''hi'')] []"

definition node_b :: element where
  "node_b = Element ''node'' [(''resource-id'', ''b''), (''text'', ''lo'')] []"

definition sample_root :: element where
  "sample_root = Element ''root'' [] [node_a, node_b]"

text \<open>A file system with one file, whose document is the sample tree.\<close>

definition sample_files :: "string \<Rightarrow> elem_ptr option" where
  "sample_files path = (if path = ''dump.xml'' then Some [sample_root] else None)"

text \<open>A file system whose files all parse to a document without elements.\<close>

definition comment_only_files :: "string \<Rightarrow> elem_ptr option" where
  "comment_only_files path = Some []"

text \<open>Sample runs and a configuration with every criterion set.\<close>

definition unknown_option_run :: "(char \<times> string) list" where
  "unknown_option_run = [(CHR ''f'', ''dump.xml''), (CHR ''r'', ''a''), (CHR ''?'', [])]"

definition all_criteria :: config where
  "all_criteria =
     \<lparr>xml_file = ''dump.xml'', filter_attribute = ''text'', filter_value = ''hi'',
      only_print = ''text'', resource_id = ''a'', class_name = ''b'', text_value = ''lo'',
      debug = False\<rparr>"

section \<open>Helper lemmas\<close>

lemma preorder_unfold: "preorder e = e # concat (map preorder (children e))"
  by (cases e) simp

lemma full_walk_Nil [simp]: "full_walk P pr [] = []"
  by (simp add: full_walk_def)

lemma full_walk_Cons: "full_walk P pr (e # es) = visit P pr e @ full_walk P pr es"
  by (simp add: full_walk_def)

lemma full_walk_append: "full_walk P pr (xs @ ys) = full_walk P pr xs @ full_walk P pr ys"
  by (simp add: full_walk_def)

lemma tested_append [simp]: "tested (xs @ ys) = tested xs @ tested ys"
  by (induction xs rule: tested.induct) auto

lemma printed_append [simp]: "printed (xs @ ys) = printed xs @ printed ys"
  by (induction xs rule: printed.induct) auto

lemma written_append [simp]: "written (xs @ ys) = written xs @ written ys"
  by (induction xs rule: written.induct) auto

lemma tested_full_walk: "tested (full_walk P pr es) = es"
  by (induction es) (auto simp: full_walk_Cons visit_def)

lemma printed_full_walk: "printed (full_walk P pr es) = filter P es"
  by (induction es) (auto simp: full_walk_Cons visit_def)

lemma written_full_walk: "written (full_walk P pr es) = concat (map pr (filter P es))"
  by (induction es) (auto simp: full_walk_Cons visit_def)

lemma length_preorder: "length (preorder e) = node_count e"
proof (induction e)
  case (Element name attrs cs)
  then have "(\<Sum>c\<leftarrow>cs. length (preorder c)) = sum_list (map node_count cs)"
    by (induction cs) auto
  then show ?case
    by (simp add: length_concat comp_def)
qed

lemma case_attr_eq:
  "(case Attribute e name of None \<Rightarrow> False | Some v \<Rightarrow> target = v) =
     (Attribute e name = Some target)"
  by (auto split: option.splits)

lemma resource_id_walk:
  "ptr \<noteq> [] \<Longrightarrow>
     find_node_by_resource_id dbg ptr target only fa fv =
       Inr (full_walk
              (\<lambda>e. Attribute e ''resource-id'' = Some target \<and> node_matches_additional_filter e fa fv)
              (\<lambda>e. print_node_attributes dbg e only) (preorder (hd ptr)))"
  "resource_id_children dbg ptr target only fa fv =
       Inr (full_walk
              (\<lambda>e. Attribute e ''resource-id'' = Some target \<and> node_matches_additional_filter e fa fv)
              (\<lambda>e. print_node_attributes dbg e only) (concat (map preorder ptr)))"
proof (induction dbg ptr target only fa fv and dbg ptr target only fa fv
       rule: find_node_by_resource_id_resource_id_children.induct)
  case (2 dbg element sibs target only fa fv)
  show ?case
    using "2.IH"
    by (subst preorder_unfold) (simp add: full_walk_Cons visit_def case_attr_eq)
next
  case (4 dbg child sibs target only fa fv)
  show ?case
    using "4.IH" by (simp add: full_walk_append)
qed simp_all

lemma class_walk:
  "ptr \<noteq> [] \<Longrightarrow>
     find_node_by_class dbg ptr target only fa fv =
       Inr (full_walk
              (\<lambda>e. Attribute e ''class'' = Some target \<and> node_matches_additional_filter e fa fv)
              (\<lambda>e. print_node_attributes dbg e only) (preorder (hd ptr)))"
  "class_children dbg ptr target only fa fv =
       Inr (full_walk
              (\<lambda>e. Attribute e ''class'' = Some target \<and> node_matches_additional_filter e fa fv)
              (\<lambda>e. print_node_attributes dbg e only) (concat (map preorder ptr)))"
proof (induction dbg ptr target only fa fv and dbg ptr target only fa fv
       rule: find_node_by_class_class_children.induct)
  case (2 dbg element sibs target only fa fv)
  show ?case
    using "2.IH"
    by (subst preorder_unfold) (simp add: full_walk_Cons visit_def case_attr_eq)
next
  case (4 dbg child sibs target only fa fv)
  show ?case
    using "4.IH" by (simp add: full_walk_append)
qed simp_all

lemma text_walk:
  "ptr \<noteq> [] \<Longrightarrow>
     find_node_by_text dbg ptr target only fa fv =
       Inr (full_walk
              (\<lambda>e. Attribute e ''text'' = Some target \<and> node_matches_additional_filter e fa fv)
              (\<lambda>e. print_node_attributes dbg e only) (preorder (hd ptr)))"
  "text_children dbg ptr target only fa fv =
       Inr (full_walk
              (\<lambda>e. Attribute e ''text'' = Some target \<and> node_matches_additional_filter e fa fv)
              (\<lambda>e. print_node_attributes dbg e only) (concat (map preorder ptr)))"
proof (induction dbg ptr target only fa fv and dbg ptr target only fa fv
       rule: find_node_by_text_text_children.induct)
  case (2 dbg element sibs target only fa fv)
  show ?case
    using "2.IH"
    by (subst preorder_unfold) (simp add: full_walk_Cons visit_def case_attr_eq)
next
  case (4 dbg child sibs target only fa fv)
  show ?case
    using "4.IH" by (simp add: full_walk_append)
qed simp_all

lemma filter_walk:
  "find_node_by_filter dbg ptr fa fv only =
     full_walk (\<lambda>e. node_matches_additional_filter e fa fv)
       (\<lambda>e. print_node_attributes dbg e only) (concat (map preorder ptr))"
proof (induction dbg ptr fa fv only rule: find_node_by_filter.induct)
  case (1 dbg fa fv only)
  show ?case by simp
next
  case (2 dbg child sibs fa fv only)
  have "preorder child = child # concat (map preorder (children child))"
    by (rule preorder_unfold)
  then show ?case
    using "2.IH" by (simp add: full_walk_Cons full_walk_append visit_def)
qed

lemma attribute_loop_result:
  "attribute_loop attrs (has, out) =
     (has \<or> attrs \<noteq> [],
      out @ concat (map (\<lambda>attr. ''  '' @ fst attr @ '': '' @ snd attr @ endl) attrs))"
  by (induction attrs arbitrary: has out) auto

lemma no_filter_matches [simp]: "node_matches_additional_filter e [] [] = True"
  by (simp add: node_matches_additional_filter_def)

lemma set_values_filter:
  "fa \<noteq> [] \<Longrightarrow> fv \<noteq> [] \<Longrightarrow>
     node_matches_additional_filter e fa fv = (Attribute e fa = Some fv)"
  by (auto simp: node_matches_additional_filter_def split: option.splits)

lemma resource_id_result:
  "find_node_by_resource_id dbg (root # sibs) target only fa fv =
     Inr (full_walk
            (\<lambda>e. Attribute e ''resource-id'' = Some target \<and> node_matches_additional_filter e fa fv)
            (\<lambda>e. print_node_attributes dbg e only) (preorder root))"
  using resource_id_walk(1) [of "root # sibs" dbg target only fa fv] by simp

lemma class_result:
  "find_node_by_class dbg (root # sibs) target only fa fv =
     Inr (full_walk
            (\<lambda>e. Attribute e ''class'' = Some target \<and> node_matches_additional_filter e fa fv)
            (\<lambda>e. print_node_attributes dbg e only) (preorder root))"
  using class_walk(1) [of "root # sibs" dbg target only fa fv] by simp

lemma text_result:
  "find_node_by_text dbg (root # sibs) target only fa fv =
     Inr (full_walk
            (\<lambda>e. Attribute e ''text'' = Some target \<and> node_matches_additional_filter e fa fv)
            (\<lambda>e. print_node_attributes dbg e only) (preorder root))"
  using text_walk(1) [of "root # sibs" dbg target only fa fv] by simp

lemma string_find_first:
  "c \<notin> set name \<Longrightarrow> string_find (name @ c # later) c = Some (length name)"
  by (induction name) auto

lemma option_loop_setters:
  "\<forall>opt \<in> set (map fst opts). sets_variable opt \<Longrightarrow>
     \<exists>c'. option_loop argv0 opts c = Inr c' \<and>
       xml_file c' =
         foldl (\<lambda>path (opt, optarg). if opt = CHR ''f'' then optarg else path) (xml_file c) opts"
proof (induction opts arbitrary: c)
  case Nil
  show ?case by simp
next
  case (Cons a opts)
  obtain opt optarg where a: "a = (opt, optarg)" by (cases a)
  from Cons.prems a have rest: "\<forall>opt \<in> set (map fst opts). sets_variable opt"
    and known: "sets_variable opt" by simp_all
  from known consider "opt = CHR ''f''" | "opt = CHR ''r''" | "opt = CHR ''c''"
    | "opt = CHR ''t''" | "opt = CHR ''F''" | "opt = CHR ''p''" | "opt = CHR ''d''"
    by (auto simp: sets_variable_def)
  then show ?case
  proof cases
    case 1
    then show ?thesis using Cons.IH [OF rest, of "c\<lparr>xml_file := optarg\<rparr>"] a by simp
  next
    case 2
    then show ?thesis using Cons.IH [OF rest, of "c\<lparr>resource_id := optarg\<rparr>"] a by simp
  next
    case 3
    then show ?thesis using Cons.IH [OF rest, of "c\<lparr>class_name := optarg\<rparr>"] a by simp
  next
    case 4
    then show ?thesis using Cons.IH [OF rest, of "c\<lparr>text_value := optarg\<rparr>"] a by simp
  next
    case 5
    show ?thesis
    proof (cases "string_find optarg (CHR ''='')")
      case None
      then show ?thesis using 5 Cons.IH [OF rest, of c] a by simp
    next
      case (Some equal_pos)
      then show ?thesis
        using 5 a
          Cons.IH [OF rest, of "c\<lparr>filter_attribute := take equal_pos optarg,
                                   filter_value := drop (equal_pos + 1) optarg\<rparr>"]
        by simp
    qed
  next
    case 6
    then show ?thesis using Cons.IH [OF rest, of "c\<lparr>only_print := optarg\<rparr>"] a by simp
  next
    case 7
    then show ?thesis using Cons.IH [OF rest, of "c\<lparr>debug := True\<rparr>"] a by simp
  qed
qed

lemma option_loop_plain:
  "set (map fst opts) \<subseteq> set ''fpd'' \<Longrightarrow>
     \<exists>c'. option_loop argv0 opts c = Inr c' \<and>
       resource_id c' = resource_id c \<and> class_name c' = class_name c \<and>
       text_value c' = text_value c \<and> filter_attribute c' = filter_attribute c \<and>
       filter_value c' = filter_value c"
proof (induction opts arbitrary: c)
  case Nil
  show ?case by simp
next
  case (Cons a opts)
  obtain opt optarg where a: "a = (opt, optarg)" by (cases a)
  from Cons.prems a have rest: "set (map fst opts) \<subseteq> set ''fpd''"
    and known: "opt \<in> set ''fpd''" by simp_all
  from known consider "opt = CHR ''f''" | "opt = CHR ''p''" | "opt = CHR ''d''"
    by auto
  then show ?case
  proof cases
    case 1
    then show ?thesis using Cons.IH [OF rest, of "c\<lparr>xml_file := optarg\<rparr>"] a by simp
  next
    case 2
    then show ?thesis using Cons.IH [OF rest, of "c\<lparr>only_print := optarg\<rparr>"] a by simp
  next
    case 3
    then show ?thesis using Cons.IH [OF rest, of "c\<lparr>debug := True\<rparr>"] a by simp
  qed
qed

lemma option_loop_leaves:
  "dropWhile sets_variable (map fst opts) = opt # later \<Longrightarrow>
     option_loop argv0 opts c =
       Inl (if opt = CHR ''h''
            then \<lparr>status = Exited 0, cout = print_help, cerr = [], trace = []\<rparr>
            else \<lparr>status = Exited EXIT_FAILURE, cout = [], cerr = usage argv0, trace = []\<rparr>)"
proof (induction opts arbitrary: c)
  case Nil
  then show ?case by simp
next
  case (Cons a opts)
  obtain o1 optarg where a: "a = (o1, optarg)" by (cases a)
  show ?case
  proof (cases "sets_variable o1")
    case False
    with Cons.prems a have "o1 = opt" by simp
    with False a show ?thesis by (simp add: sets_variable_def)
  next
    case True
    with Cons.prems a have rest: "dropWhile sets_variable (map fst opts) = opt # later"
      by simp
    from True consider "o1 = CHR ''f''" | "o1 = CHR ''r''" | "o1 = CHR ''c''"
      | "o1 = CHR ''t''" | "o1 = CHR ''F''" | "o1 = CHR ''p''" | "o1 = CHR ''d''"
      by (auto simp: sets_variable_def)
    then show ?thesis
      using Cons.IH [OF rest] a by cases (simp_all split: option.splits)
  qed
qed

lemma dispatch_on_element: "\<exists>evs err. dispatch c (root # sibs) = (Inr evs, err)"
  unfolding dispatch_def resource_id_result class_result text_result by simp

lemma main_leaves:
  assumes "dropWhile sets_variable (map fst opts) = opt # later"
  shows "main argv0 opts LoadFile =
           (if opt = CHR ''h''
            then \<lparr>status = Exited 0, cout = print_help, cerr = [], trace = []\<rparr>
            else \<lparr>status = Exited EXIT_FAILURE, cout = [], cerr = usage argv0, trace = []\<rparr>)"
  using option_loop_leaves [OF assms, of argv0 initial_config]
  by (simp add: main_def)

lemma main_status_after_loop:
  assumes "option_loop argv0 opts initial_config = Inr c"
  shows "status (main argv0 opts LoadFile) =
           (if xml_file c = [] then Exited 1
            else case LoadFile (xml_file c) of
                   None \<Rightarrow> Exited 1
                 | Some root_element \<Rightarrow>
                     (case fst (dispatch c root_element) of
                        Inl f \<Rightarrow> Crashed f | Inr evs \<Rightarrow> Exited 0))"
    and "trace (main argv0 opts LoadFile) =
           (if xml_file c = [] then []
            else case LoadFile (xml_file c) of
                   None \<Rightarrow> []
                 | Some root_element \<Rightarrow>
                     (case fst (dispatch c root_element) of
                        Inl f \<Rightarrow> [] | Inr evs \<Rightarrow> evs))"
    and "cerr (main argv0 opts LoadFile) =
           (if xml_file c = [] then ''Error: XML file is required. Use --file <xml_file>'' @ endl
            else case LoadFile (xml_file c) of
                   None \<Rightarrow> ''Error: could not parse file '' @ xml_file c @ endl
                 | Some root_element \<Rightarrow> snd (dispatch c root_element))"
  using assms
  by (auto simp: main_def EXIT_FAILURE_def Let_def split: option.splits sum.splits prod.splits)

lemma dispatch_no_criteria:
  assumes "resource_id c = []" "class_name c = []" "text_value c = []"
    and "filter_attribute c = [] \<or> filter_value c = []"
  shows "dispatch c root_element =
           (Inr [],
            ''No search criteria specified. Use --resource-id, '' @
            ''--class, --text, or --filter-attribute <attr=value>.'' @ endl)"
  using assms by (auto simp: dispatch_def)

lemma status_cases:
  assumes "option_loop argv0 opts initial_config = Inr c"
  shows "status (main argv0 opts LoadFile) = Exited 0 \<or>
         status (main argv0 opts LoadFile) = Exited 1 \<or>
         (status (main argv0 opts LoadFile) = Crashed NullDereference \<and>
          LoadFile (xml_file c) = Some [])"
proof (cases "xml_file c = []")
  case True
  then show ?thesis by (simp add: main_status_after_loop(1) [OF assms])
next
  case False
  show ?thesis
  proof (cases "LoadFile (xml_file c)")
    case None
    with False show ?thesis by (simp add: main_status_after_loop(1) [OF assms])
  next
    case (Some root_element)
    show ?thesis
    proof (cases root_element)
      case Nil
      show ?thesis
      proof (cases "fst (dispatch c [])")
        case (Inl f)
        moreover have "f = NullDereference" by (cases f)
        ultimately show ?thesis
          using False Some Nil by (simp add: main_status_after_loop(1) [OF assms])
      next
        case (Inr evs)
        then show ?thesis
          using False Some Nil by (simp add: main_status_after_loop(1) [OF assms])
      qed
    next
      case (Cons root sibs)
      obtain evs err where "dispatch c (root # sibs) = (Inr evs, err)"
        using dispatch_on_element by blast
      then show ?thesis
        using False Some Cons by (simp add: main_status_after_loop(1) [OF assms])
    qed
  qed
qed

lemma trace_empty_unless_success:
  assumes "option_loop argv0 opts initial_config = Inr c"
    and "status (main argv0 opts LoadFile) \<noteq> Exited 0"
  shows "trace (main argv0 opts LoadFile) = []"
  using assms(2)
  by (auto simp: main_status_after_loop(1,2) [OF assms(1)] split: option.splits sum.splits if_splits)

lemma filter_predicate_cong:
  "fa \<noteq> [] \<Longrightarrow> fv \<noteq> [] \<Longrightarrow>
     full_walk (\<lambda>e. node_matches_additional_filter e fa fv) pr es =
     full_walk (\<lambda>e. Attribute e fa = Some fv) pr es"
  by (simp add: set_values_filter)

section \<open>The secondary filter (C2, C9)\<close>

text \<open>
  C2, as stated, fails: a filter whose attribute name is set and whose expected value is
  the empty string accepts an element that does not carry the attribute at all.
\<close>

theorem empty_value_filter_accepts_bare_element:
  "node_matches_additional_filter (Element ''node'' [] []) ''text'' [] \<and>
   Attribute (Element ''node'' [] []) ''text'' \<noteq> Some []"
  by (simp add: node_matches_additional_filter_def Attribute_def)

text \<open>
  C2, amended: when the filter's attribute name or its expected value is empty, the
  secondary check is true for every element; otherwise it is true exactly when the
  element carries the named attribute with a value equal to the expected value.
\<close>

theorem secondary_filter_meaning:
  "node_matches_additional_filter e fa fv =
     (if fa = [] \<or> fv = [] then True else Attribute e fa = Some fv)"
  by (auto simp: node_matches_additional_filter_def split: option.splits)

theorem secondary_filter_meaning_witness:
  "node_matches_additional_filter node_a ''text'' ''hi'' \<and>
   \<not> node_matches_additional_filter node_a ''text'' ''lo'' \<and>
   \<not> node_matches_additional_filter node_a ''bounds'' ''hi'' \<and>
   node_matches_additional_filter node_a ''bounds'' []"
  using secondary_filter_meaning [of node_a "''text''" "''hi''"]
    secondary_filter_meaning [of node_a "''text''" "''lo''"]
    secondary_filter_meaning [of node_a "''bounds''" "''hi''"]
    secondary_filter_meaning [of node_a "''bounds''" "[]"]
  by (simp add: node_a_def Attribute_def)

text \<open>
  C9: for each of the three named traversals, the elements printed with a secondary
  filter are the elements printed without one (filter name and value both unset) that
  also pass the secondary check, hence a subset of them; the check with no filter set
  is true of every element.
\<close>

theorem secondary_filter_only_restricts:
  "(\<exists>narrow wide.
      find_node_by_resource_id dbg (root # sibs) target only fa fv = Inr narrow \<and>
      find_node_by_resource_id dbg (root # sibs) target only [] [] = Inr wide \<and>
      printed narrow = filter (\<lambda>e. node_matches_additional_filter e fa fv) (printed wide) \<and>
      set (printed narrow) \<subseteq> set (printed wide)) \<and>
   (\<exists>narrow wide.
      find_node_by_class dbg (root # sibs) target only fa fv = Inr narrow \<and>
      find_node_by_class dbg (root # sibs) target only [] [] = Inr wide \<and>
      printed narrow = filter (\<lambda>e. node_matches_additional_filter e fa fv) (printed wide) \<and>
      set (printed narrow) \<subseteq> set (printed wide)) \<and>
   (\<exists>narrow wide.
      find_node_by_text dbg (root # sibs) target only fa fv = Inr narrow \<and>
      find_node_by_text dbg (root # sibs) target only [] [] = Inr wide \<and>
      printed narrow = filter (\<lambda>e. node_matches_additional_filter e fa fv) (printed wide) \<and>
      set (printed narrow) \<subseteq> set (printed wide)) \<and>
   node_matches_additional_filter e [] []"
  unfolding resource_id_result class_result text_result
  by (auto simp: printed_full_walk)

theorem secondary_filter_only_restricts_witness:
  "map_sum id printed
     (find_node_by_resource_id False [sample_root] ''a'' None ''text'' ''lo'') = Inr [] \<and>
   map_sum id printed
     (find_node_by_resource_id False [sample_root] ''a'' None [] []) = Inr [node_a]"
  using secondary_filter_only_restricts
    [of False sample_root "[]" "''a''" None "''text''" "''lo''" sample_root]
  by (auto simp: sample_root_def node_a_def node_b_def Attribute_def
      node_matches_additional_filter_def)

section \<open>Null pointers (C3)\<close>

text \<open>
  C3: a null node is a silent end of the recursion only for \<open>find_node_by_filter\<close>.
  The three named traversals dereference the pointer they are given, and \<open>main\<close>
  hands them the root element unchecked: on a document without elements the run with
  a resource id ends in a fault.
\<close>

theorem null_node_faults_named_traversals:
  "find_node_by_resource_id dbg [] target only fa fv = Inl NullDereference \<and>
   find_node_by_class dbg [] target only fa fv = Inl NullDereference \<and>
   find_node_by_text dbg [] target only fa fv = Inl NullDereference \<and>
   find_node_by_filter dbg [] fa fv only = [] \<and>
   status (main ''uidump-parser'' [(CHR ''f'', ''dump.xml''), (CHR ''r'', ''a'')]
             comment_only_files) = Crashed NullDereference"
  by (simp add: main_def dispatch_def initial_config_def comment_only_files_def)

section \<open>The traversals (C6, C5, C1)\<close>

text \<open>
  C6: started at the root, each of the three named traversals returns, and the elements
  it tests are the nodes of the tree in depth-first pre-order with children in document
  order, each once, whatever the target and the filter: as many tests as the tree has
  nodes. The siblings of the root are not visited.
\<close>

theorem named_traversals_test_every_node_once:
  "(\<exists>evs. find_node_by_resource_id dbg (root # sibs) target only fa fv = Inr evs \<and>
      tested evs = preorder root \<and> length (tested evs) = node_count root) \<and>
   (\<exists>evs. find_node_by_class dbg (root # sibs) target only fa fv = Inr evs \<and>
      tested evs = preorder root \<and> length (tested evs) = node_count root) \<and>
   (\<exists>evs. find_node_by_text dbg (root # sibs) target only fa fv = Inr evs \<and>
      tested evs = preorder root \<and> length (tested evs) = node_count root)"
  unfolding resource_id_result class_result text_result
  by (simp add: tested_full_walk length_preorder)

theorem named_traversals_test_every_node_once_witness:
  "map_sum id tested
     (find_node_by_resource_id False [sample_root] ''zzz'' None [] []) =
     Inr [sample_root, node_a, node_b] \<and>
   node_count sample_root = 3"
  using named_traversals_test_every_node_once
    [of False sample_root "[]" "''zzz''" None "[]" "[]"]
  by (auto simp: sample_root_def node_a_def node_b_def)

text \<open>
  C5: with no secondary filter, the elements a named traversal prints are exactly the
  elements of the tree that carry the attribute \<open>resource-id\<close>, \<open>class\<close> or \<open>text\<close>
  with a value equal to the target; with the filter as the primary criterion (name and
  value not empty, as the dispatch requires) they are exactly the elements that carry
  the filter's attribute with the filter's value. An element without the attribute is
  not printed, and nothing faults.
\<close>

theorem primary_match_is_attribute_equality:
  "(\<exists>evs. find_node_by_resource_id dbg (root # sibs) target only [] [] = Inr evs \<and>
      printed evs = filter (\<lambda>e. Attribute e ''resource-id'' = Some target) (preorder root)) \<and>
   (\<exists>evs. find_node_by_class dbg (root # sibs) target only [] [] = Inr evs \<and>
      printed evs = filter (\<lambda>e. Attribute e ''class'' = Some target) (preorder root)) \<and>
   (\<exists>evs. find_node_by_text dbg (root # sibs) target only [] [] = Inr evs \<and>
      printed evs = filter (\<lambda>e. Attribute e ''text'' = Some target) (preorder root)) \<and>
   (fa \<noteq> [] \<and> fv \<noteq> [] \<longrightarrow>
      printed (find_node_by_filter dbg (root # sibs) fa fv only) =
        filter (\<lambda>e. Attribute e fa = Some fv) (preorder root @ concat (map preorder sibs)))"
  unfolding resource_id_result class_result text_result filter_walk
  by (simp add: printed_full_walk set_values_filter)

theorem primary_match_is_attribute_equality_witness:
  "map_sum id printed
     (find_node_by_resource_id False [sample_root] ''a'' None [] []) = Inr [node_a] \<and>
   map_sum id printed
     (find_node_by_class False [sample_root] ''a'' None [] []) = Inr [] \<and>
   map_sum id printed
     (find_node_by_text False [sample_root] ''lo'' None [] []) = Inr [node_b] \<and>
   printed (find_node_by_filter False [sample_root] ''text'' ''hi'' None) = [node_a]"
  using primary_match_is_attribute_equality
    [of False sample_root "[]" "''a''" None "''text''" "''hi''"]
    primary_match_is_attribute_equality
    [of False sample_root "[]" "''lo''" None "''text''" "''hi''"]
  by (auto simp: sample_root_def node_a_def node_b_def Attribute_def)

text \<open>
  C1, as stated, fails: started at an element that has a following sibling, the filter
  traversal also prints the matches of the sibling, which are outside the subtree of
  the starting element.
\<close>

theorem filter_traversal_prints_following_sibling:
  "printed (find_node_by_filter False [node_a, node_b] ''text'' ''lo'' None) = [node_b] \<and>
   subtree_matches node_a ''text'' ''lo'' = []"
  by (simp add: subtree_matches_def node_a_def node_b_def Attribute_def
      node_matches_additional_filter_def)

text \<open>
  C1, amended: the filter traversal tests the nodes of the subtree of the starting
  element in pre-order and then those of the subtrees of its following siblings, in
  order, each node once, and prints the ones that match: the matches of the plain
  pre-order walk of the starting element's subtree, followed by those of each following
  sibling's subtree. Started at an element without following siblings, it tests exactly
  the nodes of that subtree and prints exactly the matches of the plain walk.
\<close>

theorem filter_traversal_walks_element_and_following_siblings:
  "tested (find_node_by_filter dbg (start # sibs) fa fv only) =
     preorder start @ concat (map preorder sibs) \<and>
   printed (find_node_by_filter dbg (start # sibs) fa fv only) =
     subtree_matches start fa fv @ concat (map (\<lambda>s. subtree_matches s fa fv) sibs) \<and>
   tested (find_node_by_filter dbg [start] fa fv only) = preorder start \<and>
   printed (find_node_by_filter dbg [start] fa fv only) = subtree_matches start fa fv"
  by (simp add: filter_walk tested_full_walk printed_full_walk subtree_matches_def
      filter_concat comp_def)

theorem filter_traversal_walks_element_and_following_siblings_witness:
  "printed (find_node_by_filter False [sample_root] ''text'' ''lo'' None) = [node_b] \<and>
   tested (find_node_by_filter False [node_a, node_b] ''text'' ''lo'' None) = [node_a, node_b]"
  using filter_traversal_walks_element_and_following_siblings
    [of False sample_root "[]" "''text''" "''lo''" None]
    filter_traversal_walks_element_and_following_siblings
    [of False node_a "[node_b]" "''text''" "''lo''" None]
  by (simp add: subtree_matches_def sample_root_def node_a_def node_b_def Attribute_def
      node_matches_additional_filter_def)

section \<open>The output projector (C7)\<close>

text \<open>
  C7: with tracing off, the projector writes, for a requested attribute that the
  element carries, the line \<open>name: value\<close>; for a requested attribute that it lacks, a
  line naming the attribute and the element's tag; and with no attribute requested
  (a null or empty name), the line \<open>Node: tag\<close>, then one line \<open>  name: value\<close> per
  attribute in document order, or one placeholder line when there is no attribute, and
  an empty line. With tracing on, the same text follows a trace line.
\<close>

theorem projector_output:
  "(name \<noteq> [] \<and> Attribute e name = Some v \<longrightarrow>
      print_node_attributes False e (Some name) = name @ '': '' @ v @ endl) \<and>
   (name \<noteq> [] \<and> Attribute e name = None \<longrightarrow>
      print_node_attributes False e (Some name) =
        ''Attribute '' @ quote @ name @ quote @ '' not found on node '' @ Name e @ endl) \<and>
   (only = None \<or> only = Some [] \<longrightarrow>
      print_node_attributes False e only =
        ''Node: '' @ Name e @ endl @
        (if attributes e = [] then ''  No attributes found for node: '' @ Name e @ endl
         else concat (map (\<lambda>attr. ''  '' @ fst attr @ '': '' @ snd attr @ endl) (attributes e))) @
        endl) \<and>
   print_node_attributes True e only =
     ''Processing node: '' @ Name e @ endl @ print_node_attributes False e only"
  by (auto simp: print_node_attributes_def dprint_def attribute_loop_result)

theorem projector_output_witness:
  "print_node_attributes False node_a (Some ''text'') = ''text: hi'' @ endl \<and>
   print_node_attributes False node_a (Some ''bounds'') =
     ''Attribute '' @ quote @ ''bounds'' @ quote @ '' not found on node node'' @ endl \<and>
   print_node_attributes False node_a None =
     ''Node: node'' @ endl @ ''  resource-id: a'' @ endl @ ''  text: hi'' @ endl @ endl \<and>
   print_node_attributes False sample_root (Some []) =
     ''Node: root'' @ endl @ ''  No attributes found for node: root'' @ endl @ endl"
  using projector_output [of "''text''" node_a "''hi''" None]
    projector_output [of "''bounds''" node_a "''hi''" "Some []"]
    projector_output [of "''bounds''" sample_root "''hi''" "Some []"]
  by (simp add: node_a_def sample_root_def Attribute_def)

section \<open>The dispatch and the exit status (C4, C10, C8)\<close>

text \<open>
  C4: whatever else is set, the dispatch runs the resource-id traversal when the
  resource id is not empty, else the class traversal when the class name is not empty,
  else the text traversal when the text value is not empty, else the filter traversal
  when the filter's name and value are not empty. On a tree it tests every element of
  the walk once. In the three named traversals the filter only adds its check to the
  match on the named attribute.
\<close>

theorem dispatch_priority:
  "(resource_id c \<noteq> [] \<longrightarrow>
      dispatch c (root # sibs) =
        (find_node_by_resource_id (debug c) (root # sibs) (resource_id c) (Some (only_print c))
           (filter_attribute c) (filter_value c), []) \<and>
      fst (dispatch c (root # sibs)) =
        Inr (full_walk
               (\<lambda>e. Attribute e ''resource-id'' = Some (resource_id c) \<and>
                    node_matches_additional_filter e (filter_attribute c) (filter_value c))
               (\<lambda>e. print_node_attributes (debug c) e (Some (only_print c)))
               (preorder root))) \<and>
   (resource_id c = [] \<and> class_name c \<noteq> [] \<longrightarrow>
      dispatch c (root # sibs) =
        (find_node_by_class (debug c) (root # sibs) (class_name c) (Some (only_print c))
           (filter_attribute c) (filter_value c), []) \<and>
      fst (dispatch c (root # sibs)) =
        Inr (full_walk
               (\<lambda>e. Attribute e ''class'' = Some (class_name c) \<and>
                    node_matches_additional_filter e (filter_attribute c) (filter_value c))
               (\<lambda>e. print_node_attributes (debug c) e (Some (only_print c)))
               (preorder root))) \<and>
   (resource_id c = [] \<and> class_name c = [] \<and> text_value c \<noteq> [] \<longrightarrow>
      dispatch c (root # sibs) =
        (find_node_by_text (debug c) (root # sibs) (text_value c) (Some (only_print c))
           (filter_attribute c) (filter_value c), []) \<and>
      fst (dispatch c (root # sibs)) =
        Inr (full_walk
               (\<lambda>e. Attribute e ''text'' = Some (text_value c) \<and>
                    node_matches_additional_filter e (filter_attribute c) (filter_value c))
               (\<lambda>e. print_node_attributes (debug c) e (Some (only_print c)))
               (preorder root))) \<and>
   (resource_id c = [] \<and> class_name c = [] \<and> text_value c = [] \<and>
    filter_attribute c \<noteq> [] \<and> filter_value c \<noteq> [] \<longrightarrow>
      dispatch c (root # sibs) =
        (Inr (find_node_by_filter (debug c) (root # sibs) (filter_attribute c)
                (filter_value c) (Some (only_print c))), []) \<and>
      fst (dispatch c (root # sibs)) =
        Inr (full_walk (\<lambda>e. Attribute e (filter_attribute c) = Some (filter_value c))
               (\<lambda>e. print_node_attributes (debug c) e (Some (only_print c)))
               (preorder root @ concat (map preorder sibs))))"
  unfolding dispatch_def resource_id_result class_result text_result filter_walk
  by (simp add: filter_predicate_cong)

theorem dispatch_priority_witness:
  "map_sum id printed (fst (dispatch all_criteria [sample_root])) = Inr [node_a] \<and>
   map_sum id printed (fst (dispatch (all_criteria\<lparr>resource_id := []\<rparr>) [sample_root])) =
     Inr [] \<and>
   map_sum id printed
     (fst (dispatch (all_criteria\<lparr>resource_id := [], class_name := []\<rparr>) [sample_root])) =
     Inr [] \<and>
   map_sum id printed
     (fst (dispatch (all_criteria\<lparr>resource_id := [], class_name := [], text_value := []\<rparr>)
        [sample_root])) = Inr [node_a]"
  using dispatch_priority [of all_criteria sample_root "[]"]
    dispatch_priority [of "all_criteria\<lparr>resource_id := []\<rparr>" sample_root "[]"]
    dispatch_priority [of "all_criteria\<lparr>resource_id := [], class_name := []\<rparr>" sample_root "[]"]
    dispatch_priority
      [of "all_criteria\<lparr>resource_id := [], class_name := [], text_value := []\<rparr>"
        sample_root "[]"]
  by (simp add: all_criteria_def printed_full_walk sample_root_def node_a_def node_b_def
      Attribute_def node_matches_additional_filter_def)

text \<open>
  C10: an argument of \<open>--filter-attribute\<close> that ends with its first \<open>=\<close> sets the
  filter's name to the text before it and the filter's value to the empty string. The
  secondary check with this filter is true of every element. With no resource id,
  class name or text value set, the dispatch then runs no traversal and writes the
  notice.
\<close>

theorem empty_filter_value_is_no_filter:
  "CHR ''='' \<notin> set name \<longrightarrow>
     option_loop argv0 ((CHR ''F'', name @ ''='') # rest) c =
       option_loop argv0 rest (c\<lparr>filter_attribute := name, filter_value := []\<rparr>) \<and>
     node_matches_additional_filter e name [] \<and>
     (resource_id c = [] \<and> class_name c = [] \<and> text_value c = [] \<longrightarrow>
        dispatch (c\<lparr>filter_attribute := name, filter_value := []\<rparr>) root_element =
          (Inr [],
           ''No search criteria specified. Use --resource-id, '' @
           ''--class, --text, or --filter-attribute <attr=value>.'' @ endl))"
  by (simp add: string_find_first node_matches_additional_filter_def dispatch_no_criteria)

theorem empty_filter_value_is_no_filter_witness:
  "option_loop ''uidump-parser'' [(CHR ''F'', ''text='')] initial_config =
     Inr (initial_config\<lparr>filter_attribute := ''text'', filter_value := []\<rparr>) \<and>
   node_matches_additional_filter sample_root ''text'' [] \<and>
   fst (dispatch (initial_config\<lparr>filter_attribute := ''text'', filter_value := []\<rparr>)
          [sample_root]) = Inr [] \<and>
   trace (main ''uidump-parser'' [(CHR ''f'', ''dump.xml''), (CHR ''F'', ''text='')]
            sample_files) = []"
  using empty_filter_value_is_no_filter
    [of "''text''" "''uidump-parser''" "[]" initial_config sample_root "[sample_root]"]
  by (simp add: initial_config_def main_def sample_files_def dispatch_def)

text \<open>
  C8, as stated, fails: a run with a file path that is not empty and a document that
  parses ends with exit code 1 when \<open>getopt_long\<close> reports an option it does not know.
\<close>

theorem unknown_option_exits_with_failure:
  "status (main ''uidump-parser'' unknown_option_run sample_files) = Exited 1 \<and>
   file_path unknown_option_run = ''dump.xml'' \<and>
   sample_files ''dump.xml'' = Some [sample_root]"
  by (simp add: main_def unknown_option_run_def sample_files_def file_path_def
      initial_config_def EXIT_FAILURE_def)

text \<open>
  C8, amended: the exit code is 1 exactly when the first option that is not one of
  \<open>f r c t F p d\<close> is not \<open>h\<close>, or, when every option is one of these, the file path is
  empty or the document fails to parse. Every run ends with exit code 0 or 1, except
  for the fault on a document without a root element. A run that does not end with
  exit code 0 has run no traversal. With no search criterion among the options, a
  file path that is not empty and a document that parses, the run ends with exit code
  0, no traversal, and the notice on the error stream.
\<close>

theorem exit_status_of_main:
  "(status (main argv0 opts LoadFile) = Exited 1 \<longleftrightarrow>
      (case dropWhile sets_variable (map fst opts) of
         opt # later \<Rightarrow> opt \<noteq> CHR ''h''
       | [] \<Rightarrow> file_path opts = [] \<or> LoadFile (file_path opts) = None)) \<and>
   (status (main argv0 opts LoadFile) = Exited 0 \<or>
    status (main argv0 opts LoadFile) = Exited 1 \<or>
    (status (main argv0 opts LoadFile) = Crashed NullDereference \<and>
     LoadFile (file_path opts) = Some [])) \<and>
   (status (main argv0 opts LoadFile) \<noteq> Exited 0 \<longrightarrow> trace (main argv0 opts LoadFile) = []) \<and>
   (set (map fst opts) \<subseteq> set ''fpd'' \<and> file_path opts \<noteq> [] \<and>
    LoadFile (file_path opts) = Some root_element \<longrightarrow>
      status (main argv0 opts LoadFile) = Exited 0 \<and>
      trace (main argv0 opts LoadFile) = [] \<and>
      cerr (main argv0 opts LoadFile) =
        ''No search criteria specified. Use --resource-id, '' @
        ''--class, --text, or --filter-attribute <attr=value>.'' @ endl)"
proof (cases "dropWhile sets_variable (map fst opts)")
  case (Cons opt later)
  have "\<not> set (map fst opts) \<subseteq> set ''fpd''"
  proof
    assume "set (map fst opts) \<subseteq> set ''fpd''"
    then have "\<forall>x \<in> set (map fst opts). sets_variable x"
      by (auto simp: sets_variable_def)
    then have "dropWhile sets_variable (map fst opts) = []"
      by simp
    with Cons show False by simp
  qed
  then show ?thesis
    using Cons by (simp add: main_leaves [OF Cons] EXIT_FAILURE_def)
next
  case Nil
  then have setters: "\<forall>opt \<in> set (map fst opts). sets_variable opt"
    by (simp add: dropWhile_eq_Nil_conv)
  obtain c where loop: "option_loop argv0 opts initial_config = Inr c"
    and path: "xml_file c = file_path opts"
    using option_loop_setters [OF setters, of argv0 initial_config]
    by (auto simp: file_path_def initial_config_def)
  have first: "status (main argv0 opts LoadFile) = Exited 1 \<longleftrightarrow>
      file_path opts = [] \<or> LoadFile (file_path opts) = None"
    using status_cases [OF loop, of LoadFile] path
    by (auto simp: main_status_after_loop(1) [OF loop] split: option.splits sum.splits)
  have second: "status (main argv0 opts LoadFile) = Exited 0 \<or>
      status (main argv0 opts LoadFile) = Exited 1 \<or>
      (status (main argv0 opts LoadFile) = Crashed NullDereference \<and>
       LoadFile (file_path opts) = Some [])"
    using status_cases [OF loop, of LoadFile] path by simp
  have third: "status (main argv0 opts LoadFile) \<noteq> Exited 0 \<longrightarrow>
      trace (main argv0 opts LoadFile) = []"
    using trace_empty_unless_success [OF loop] by blast
  have fourth: "status (main argv0 opts LoadFile) = Exited 0 \<and>
      trace (main argv0 opts LoadFile) = [] \<and>
      cerr (main argv0 opts LoadFile) =
        ''No search criteria specified. Use --resource-id, '' @
        ''--class, --text, or --filter-attribute <attr=value>.'' @ endl"
    if plain: "set (map fst opts) \<subseteq> set ''fpd''" and "file_path opts \<noteq> []"
      and "LoadFile (file_path opts) = Some root_element"
  proof -
    from option_loop_plain [OF plain, of argv0 initial_config] loop
    have "resource_id c = []" "class_name c = []" "text_value c = []" "filter_attribute c = []"
      by (auto simp: initial_config_def)
    then have "dispatch c root_element =
        (Inr [],
         ''No search criteria specified. Use --resource-id, '' @
         ''--class, --text, or --filter-attribute <attr=value>.'' @ endl)"
      by (intro dispatch_no_criteria) simp_all
    with that path show ?thesis
      by (simp add: main_status_after_loop [OF loop])
  qed
  have c1: "status (main argv0 opts LoadFile) = Exited 1 \<longleftrightarrow>
      (case dropWhile sets_variable (map fst opts) of
         opt # later \<Rightarrow> opt \<noteq> CHR ''h''
       | [] \<Rightarrow> file_path opts = [] \<or> LoadFile (file_path opts) = None)"
    unfolding Nil using first by simp
  from fourth have c4: "set (map fst opts) \<subseteq> set ''fpd'' \<and> file_path opts \<noteq> [] \<and>
      LoadFile (file_path opts) = Some root_element \<longrightarrow>
        status (main argv0 opts LoadFile) = Exited 0 \<and>
        trace (main argv0 opts LoadFile) = [] \<and>
        cerr (main argv0 opts LoadFile) =
          ''No search criteria specified. Use --resource-id, '' @
          ''--class, --text, or --filter-attribute <attr=value>.'' @ endl"
    by blast
  show ?thesis
    by (intro conjI) (rule c1, rule second, rule third, rule c4)
qed

theorem exit_status_of_main_witness:
  "status (main ''uidump-parser'' [(CHR ''f'', ''dump.xml'')] sample_files) = Exited 0 \<and>
   trace (main ''uidump-parser'' [(CHR ''f'', ''dump.xml'')] sample_files) = [] \<and>
   status (main ''uidump-parser'' [(CHR ''f'', ''none.xml''), (CHR ''r'', ''a'')] sample_files) =
     Exited 1 \<and>
   trace (main ''uidump-parser'' [(CHR ''f'', ''none.xml''), (CHR ''r'', ''a'')] sample_files) = []"
  using exit_status_of_main
      [of "''uidump-parser''" "[(CHR ''f'', ''dump.xml'')]" sample_files "[sample_root]"]
    exit_status_of_main
      [of "''uidump-parser''" "[(CHR ''f'', ''none.xml''), (CHR ''r'', ''a'')]" sample_files "[]"]
  by (simp add: file_path_def sample_files_def sets_variable_def)

end
